theory Spec2Isabelle
  imports Complex_Main
begin

section \<open>The Go library, as far as the parser uses it\<close>

text \<open>
  A Go \<^verbatim>\<open>string\<close> and a \<^verbatim>\<open>[]byte\<close> are byte sequences: \<^typ>\<open>string\<close>, a list of
  8-bit characters. Go's \<^verbatim>\<open>int\<close> is taken at its 64-bit size and held as an \<^typ>\<open>int\<close>
  inside the signed range, with the wrap-around written out where the code multiplies.
\<close>

subsection \<open>Package strings\<close>

text \<open>\<^verbatim>\<open>strings.Split(s, sep)\<close> for a one-byte separator: never empty, one more piece than
  separators.\<close>

fun Split :: "string \<Rightarrow> char \<Rightarrow> string list" where
  "Split [] sep = [[]]"
| "Split (x # xs) sep =
     (if x = sep then [] # Split xs sep
      else (case Split xs sep of [] \<Rightarrow> [[x]] | l # ls \<Rightarrow> (x # l) # ls))"

text \<open>\<^verbatim>\<open>strings.ReplaceAll(s, old, new)\<close> and \<^verbatim>\<open>strings.Count(s, sub)\<close> for one-byte
  arguments.\<close>

definition ReplaceAll :: "string \<Rightarrow> char \<Rightarrow> char \<Rightarrow> string" where
  "ReplaceAll s old new = map (\<lambda>c. if c = old then new else c) s"

definition Count :: "string \<Rightarrow> char \<Rightarrow> nat" where
  "Count s c = length (filter (\<lambda>x. x = c) s)"

subsection \<open>Package regexp\<close>

text \<open>
  The four patterns of the source use literals, the wildcard \<^verbatim>\<open>.\<close>, the anchors \<^verbatim>\<open>^\<close> and
  \<^verbatim>\<open>$\<close>, and capture groups that hold one starred or plussed character class. A compiled
  pattern is the list of these items. Matching is Go's leftmost-first matching: the match
  starts as early as possible, and among the matches starting there it is the one a
  backtracking matcher finds first, a greedy repetition trying the longer run first.
\<close>

datatype item =
    Ch char          \<comment> \<open>a literal byte\<close>
  | AnyCh            \<comment> \<open>\<^verbatim>\<open>.\<close>: any byte but a line feed\<close>
  | Bol              \<comment> \<open>\<^verbatim>\<open>^\<close>: the beginning of the text\<close>
  | Eol              \<comment> \<open>\<^verbatim>\<open>$\<close>: the end of the text\<close>
  | GStar string     \<comment> \<open>\<^verbatim>\<open>([cls]*)\<close>: a capture group, the class given by its members\<close>
  | GPlus string     \<comment> \<open>\<^verbatim>\<open>([cls]+)\<close>\<close>

definition lit :: "string \<Rightarrow> item list" where
  "lit s = map Ch s"

definition line_feed :: char where
  "line_feed = CHR 0x0A"

text \<open>A group that matches the empty string puts an empty capture before the captures of
  the rest; a group that reads one more byte puts that byte before its capture.\<close>

definition skip_group :: "(string list \<times> string) option \<Rightarrow> (string list \<times> string) option" where
  "skip_group m = (case m of None \<Rightarrow> None | Some (gs, r) \<Rightarrow> Some ([] # gs, r))"

definition grow_group :: "char \<Rightarrow> (string list \<times> string) option \<Rightarrow> (string list \<times> string) option" where
  "grow_group x m = (case m of Some (g # gs, r) \<Rightarrow> Some ((x # g) # gs, r) | _ \<Rightarrow> None)"

text \<open>\<open>match_here p i s\<close> matches the pattern \<open>p\<close> at the head of \<open>s\<close>, which stands \<open>i\<close> bytes
  into the text; it returns the captures and the unread rest.\<close>

fun match_here :: "item list \<Rightarrow> nat \<Rightarrow> string \<Rightarrow> (string list \<times> string) option" where
  "match_here [] i s = Some ([], s)"
| "match_here (Ch c # p) i [] = None"
| "match_here (Ch c # p) i (x # xs) = (if x = c then match_here p (Suc i) xs else None)"
| "match_here (AnyCh # p) i [] = None"
| "match_here (AnyCh # p) i (x # xs) =
     (if x \<noteq> line_feed then match_here p (Suc i) xs else None)"
| "match_here (Bol # p) i s = (if i = 0 then match_here p i s else None)"
| "match_here (Eol # p) i s = (if s = [] then match_here p i s else None)"
| "match_here (GStar cls # p) i [] = skip_group (match_here p i [])"
| "match_here (GStar cls # p) i (x # xs) =
     (if x \<in> set cls then
        (case grow_group x (match_here (GStar cls # p) (Suc i) xs) of
           Some m \<Rightarrow> Some m
         | None \<Rightarrow> skip_group (match_here p i (x # xs)))
      else skip_group (match_here p i (x # xs)))"
| "match_here (GPlus cls # p) i [] = None"
| "match_here (GPlus cls # p) i (x # xs) =
     (if x \<in> set cls then grow_group x (match_here (GStar cls # p) (Suc i) xs) else None)"

text \<open>The search for the leftmost start. The result is Go's slice of submatches: the whole
  match first, then the groups; the empty list stands for \<^verbatim>\<open>nil\<close>.\<close>

fun find_from :: "item list \<Rightarrow> nat \<Rightarrow> string \<Rightarrow> string list" where
  "find_from p i s =
     (case match_here p i s of
        Some (gs, r) \<Rightarrow> take (length s - length r) s # gs
      | None \<Rightarrow> (case s of [] \<Rightarrow> [] | x # xs \<Rightarrow> find_from p (Suc i) xs))"

definition FindStringSubmatch :: "item list \<Rightarrow> string \<Rightarrow> string list" where
  "FindStringSubmatch p s = find_from p 0 s"

subsection \<open>Package strconv\<close>

datatype error =
    ErrSyntax
  | ErrRange
  | RegexpDidntMatch string   \<comment> \<open>\<^verbatim>\<open>fmt.Errorf("[srt] Regexp didnt match: %s", in)\<close>\<close>

definition digits :: string where
  "digits = ''0123456789''"

definition digit_val :: "char \<Rightarrow> nat" where
  "digit_val c = of_char c - of_char CHR ''0''"

definition maxUint64 :: nat where
  "maxUint64 = 18446744073709551615"

definition maxInt64 :: int where
  "maxInt64 = 9223372036854775807"

definition minInt64 :: int where
  "minInt64 = - 9223372036854775808"

text \<open>\<^verbatim>\<open>strconv.ParseUint(s, 10, 64)\<close> reads the digits from the left with an accumulator: a
  byte that is no digit is a syntax error, a value beyond 64 bits a range error with the
  largest value.\<close>

fun ParseUint_loop :: "nat \<Rightarrow> string \<Rightarrow> nat \<times> error option" where
  "ParseUint_loop n [] = (n, None)"
| "ParseUint_loop n (c # cs) =
     (if c \<notin> set digits then (0, Some ErrSyntax)
      else if n * 10 + digit_val c > maxUint64 then (maxUint64, Some ErrRange)
      else ParseUint_loop (n * 10 + digit_val c) cs)"

definition ParseUint :: "string \<Rightarrow> nat \<times> error option" where
  "ParseUint s = (if s = [] then (0, Some ErrSyntax) else ParseUint_loop 0 s)"

text \<open>\<^verbatim>\<open>strconv.Atoi(s)\<close>, which is \<^verbatim>\<open>ParseInt(s, 10, 0)\<close>: an optional sign, then
  \<^verbatim>\<open>ParseUint\<close>; on a syntax error the value is 0, on a range error the value of largest
  magnitude with the sign read.\<close>

definition Atoi :: "string \<Rightarrow> int \<times> error option" where
  "Atoi s =
     (if s = [] then (0, Some ErrSyntax)
      else
        let neg = (hd s = CHR ''-'');
            body = (if hd s = CHR ''+'' \<or> hd s = CHR ''-'' then tl s else s)
        in case ParseUint body of
             (un, Some ErrSyntax) \<Rightarrow> (0, Some ErrSyntax)
           | (un, _) \<Rightarrow>
               if \<not> neg \<and> int un > maxInt64 then (maxInt64, Some ErrRange)
               else if neg \<and> int un > - minInt64 then (minInt64, Some ErrRange)
               else (if neg then - int un else int un, None))"

subsection \<open>Package time\<close>

text \<open>A \<^verbatim>\<open>time.Time\<close> in UTC is held as the seven numbers \<^verbatim>\<open>time.Date\<close> is called with:
  year, month, day, hour, minute, second, nanosecond. The zero \<^verbatim>\<open>Time\<close> is January 1 of
  year 1, 00:00:00.\<close>

datatype Time = Date int int int int int int int

definition zeroTime :: Time where
  "zeroTime = Date 1 1 1 0 0 0 0"

definition wrap64 :: "int \<Rightarrow> int" where
  "wrap64 x = (x + 9223372036854775808) mod 18446744073709551616 - 9223372036854775808"

subsection \<open>Floating point, the clock\<close>

text \<open>
  The bits of a \<^verbatim>\<open>float64\<close>, the rounding of \<^verbatim>\<open>strconv.ParseFloat\<close> and of package
  \<^verbatim>\<open>math\<close>, and the readings of \<^verbatim>\<open>time.Now()\<close> are not fixed by the repository. They are
  the fields of a library record, which every function of the parser takes as its first
  argument; \<^typ>\<open>'f\<close> is the type of the \<^verbatim>\<open>float64\<close> values. \<open>Now E k\<close> is the reading of the
  \<open>k\<close>-th call of \<^verbatim>\<open>time.Now()\<close>.
\<close>

record 'f golib =
  ParseFloat :: "string \<Rightarrow> 'f \<times> error option"
  fconst :: "int \<Rightarrow> 'f"                \<comment> \<open>an integer constant as a \<^verbatim>\<open>float64\<close>\<close>
  fPi :: 'f                             \<comment> \<open>\<^verbatim>\<open>math.Pi\<close>\<close>
  fsub :: "'f \<Rightarrow> 'f \<Rightarrow> 'f"
  fmul :: "'f \<Rightarrow> 'f \<Rightarrow> 'f"
  fdiv :: "'f \<Rightarrow> 'f \<Rightarrow> 'f"
  fSin :: "'f \<Rightarrow> 'f"
  fCos :: "'f \<Rightarrow> 'f"
  fAtan2 :: "'f \<Rightarrow> 'f \<Rightarrow> 'f"
  feq :: "'f \<Rightarrow> 'f \<Rightarrow> bool"            \<comment> \<open>\<^verbatim>\<open>==\<close> on \<^verbatim>\<open>float64\<close>\<close>
  Now :: "nat \<Rightarrow> Time"

section \<open>The time parser\<close>

text \<open>\<^verbatim>\<open>makeTime\<close>: \<^verbatim>\<open>time.Date(0, 1, 1, h, m, s, ms*1000*1000, time.UTC)\<close>.\<close>

definition makeTime :: "int \<Rightarrow> int \<Rightarrow> int \<Rightarrow> int \<Rightarrow> Time" where
  "makeTime h m s ms = Date 0 1 1 h m s (wrap64 (wrap64 (ms * 1000) * 1000))"

definition time_re :: "item list" where
  \<comment> \<open>\<^verbatim>\<open>([0-9]+):([0-9]+):([0-9]+):([0-9]+)\<close>\<close>
  "time_re = [GPlus digits, Ch CHR '':'', GPlus digits, Ch CHR '':'', GPlus digits,
              Ch CHR '':'', GPlus digits]"

definition normalize :: "string \<Rightarrow> string" where
  "normalize inp =
     (let in1 = ReplaceAll inp CHR '','' CHR '':'';
          in2 = ReplaceAll in1 CHR ''.'' CHR '':''
      in if Count in2 CHR '':'' = 2 then in2 @ '':000'' else in2)"

text \<open>\<^verbatim>\<open>parseSrtTime\<close>. Every failing return reads the clock once; \<open>k\<close> is the number of
  clock readings taken before the call.\<close>

definition parseSrtTime :: "'f golib \<Rightarrow> nat \<Rightarrow> string \<Rightarrow> Time \<times> error option" where
  "parseSrtTime E k inp =
     (let in3 = normalize inp;
          matches = FindStringSubmatch time_re in3
      in if length matches < 5 then (Now E k, Some (RegexpDidntMatch in3))
         else case Atoi (matches ! 1) of
           (h, Some e) \<Rightarrow> (Now E k, Some e)
         | (h, None) \<Rightarrow>
         (case Atoi (matches ! 2) of
           (m, Some e) \<Rightarrow> (Now E k, Some e)
         | (m, None) \<Rightarrow>
         (case Atoi (matches ! 3) of
           (s, Some e) \<Rightarrow> (Now E k, Some e)
         | (s, None) \<Rightarrow>
         (case Atoi (matches ! 4) of
           (ms, Some e) \<Rightarrow> (Now E k, Some e)
         | (ms, None) \<Rightarrow> (makeTime h m s ms, None)))))"

section \<open>The data model\<close>

record 'f MetrologySample =
  ID :: int
  Start :: Time
  End :: Time
  FStop :: 'f
  Shutter :: 'f
  ISO :: int
  EV :: 'f
  Zoom :: int
  Latitude :: 'f
  Longitude :: 'f
  Sources :: int
  Bearing :: 'f
  DTH :: 'f
  Altitude :: 'f
  HorizontalSpeed :: 'f
  VerticalSpeed :: 'f

text \<open>\<^verbatim>\<open>&MetrologySample{}\<close> points to a sample of zero values.\<close>

definition emptySample :: "'f golib \<Rightarrow> 'f MetrologySample" where
  "emptySample E =
     \<lparr>ID = 0, Start = zeroTime, End = zeroTime, FStop = fconst E 0, Shutter = fconst E 0,
      ISO = 0, EV = fconst E 0, Zoom = 0, Latitude = fconst E 0, Longitude = fconst E 0,
      Sources = 0, Bearing = fconst E 0, DTH = fconst E 0, Altitude = fconst E 0,
      HorizontalSpeed = fconst E 0, VerticalSpeed = fconst E 0\<rparr>"

record 'f Point =
  lat :: 'f
  lng :: 'f

section \<open>The bearing calculator\<close>

definition BearingTo :: "'f golib \<Rightarrow> 'f Point \<Rightarrow> 'f Point \<Rightarrow> 'f" where
  "BearingTo E p1 p2 =
     (let dLon = fdiv E (fmul E (fsub E (lng p2) (lng p1)) (fPi E)) (fconst E 180);
          lat1 = fdiv E (fmul E (lat p1) (fPi E)) (fconst E 180);
          lat2 = fdiv E (fmul E (lat p2) (fPi E)) (fconst E 180);
          y = fmul E (fSin E dLon) (fCos E lat2);
          x = fsub E (fmul E (fCos E lat1) (fSin E lat2))
                     (fmul E (fmul E (fSin E lat1) (fCos E lat2)) (fCos E dLon));
          brng = fdiv E (fmul E (fAtan2 E y x) (fconst E 180)) (fPi E)
      in brng)"

section \<open>The record parser\<close>

text \<open>
  \<^verbatim>\<open>Metrology\<close> is a slice of pointers, and the builder \<^verbatim>\<open>data\<close> is a pointer too: two
  entries of the slice may be one sample. Pointers are addresses (\<^typ>\<open>nat\<close>) into a heap
  of samples. The state of the loop holds the heap, the number of samples allocated, the
  local variables \<^verbatim>\<open>data\<close>, \<^verbatim>\<open>metrology\<close> and \<^verbatim>\<open>dataLen\<close>, the number of clock readings
  taken, and what was printed: for each \<^verbatim>\<open>fmt.Printf\<close> the line index and the error.
\<close>

record 'f loop_state =
  heap :: "nat \<Rightarrow> 'f MetrologySample"
  allocs :: nat
  data :: nat
  metrology :: "nat list"
  dataLen :: nat
  clock :: nat
  stdout :: "(nat \<times> error) list"

datatype panic = SliceBoundsOutOfRange | IndexOutOfRange

definition r1 :: "item list" where
  \<comment> \<open>\<^verbatim>\<open>^([0-9]*)$\<close>\<close>
  "r1 = [Bol, GStar digits, Eol]"

definition r2 :: "item list" where
  \<comment> \<open>\<^verbatim>\<open>([0-9:.,]*) --> ([0-9:.,]*)\<close>\<close>
  "r2 = [GStar ''0123456789:.,''] @ lit '' --> '' @ [GStar ''0123456789:.,'']"

definition r3 :: "item list" where
  \<comment> \<open>\<^verbatim>\<open>F/([0-9.]*), SS ([0-9.]*), ISO ([0-9.]*), EV ([0-9.-]*), DZOOM ([0-9.]*), \<close>
      \<^verbatim>\<open>GPS \(([0-9.-]*), ([0-9.-]*), ([0-9.-]*)\), D ([0-9.-]*)m, H ([0-9.-]*)m, \<close>
      \<^verbatim>\<open>H\.S ([0-9.-]*)m/s. V\.S ([0-9.-]*)m/s\<close>\<close>
  "r3 = lit ''F/'' @ [GStar ''0123456789.''] @ lit '', SS '' @ [GStar ''0123456789.'']
      @ lit '', ISO '' @ [GStar ''0123456789.''] @ lit '', EV '' @ [GStar ''0123456789.-'']
      @ lit '', DZOOM '' @ [GStar ''0123456789.''] @ lit '', GPS ('' @ [GStar ''0123456789.-'']
      @ lit '', '' @ [GStar ''0123456789.-''] @ lit '', '' @ [GStar ''0123456789.-'']
      @ lit ''), D '' @ [GStar ''0123456789.-''] @ lit ''m, H '' @ [GStar ''0123456789.-'']
      @ lit ''m, H.S '' @ [GStar ''0123456789.-''] @ lit ''m/s'' @ [AnyCh]
      @ lit '' V.S '' @ [GStar ''0123456789.-''] @ lit ''m/s''"

text \<open>An assignment through the pointer \<^verbatim>\<open>data\<close>.\<close>

definition upd_data :: "('f MetrologySample \<Rightarrow> 'f MetrologySample) \<Rightarrow> 'f loop_state \<Rightarrow> 'f loop_state" where
  "upd_data f st = st\<lparr>heap := (heap st)(data st := f (heap st (data st)))\<rparr>"

text \<open>\<^verbatim>\<open>data = &MetrologySample{}\<close>: a fresh address.\<close>

definition new_data :: "'f golib \<Rightarrow> 'f loop_state \<Rightarrow> 'f loop_state" where
  "new_data E st =
     st\<lparr>heap := (heap st)(allocs st := emptySample E), allocs := Suc (allocs st),
        data := allocs st\<rparr>"

definition init_state :: "'f golib \<Rightarrow> 'f loop_state" where
  "init_state E =
     \<lparr>heap = (\<lambda>a. emptySample E), allocs = 1, data = 0, metrology = [], dataLen = 0,
      clock = 0, stdout = []\<rparr>"

text \<open>What follows a call of \<^verbatim>\<open>parseSrtTime\<close> at line \<open>c\<close>: a failing call has read the clock,
  and its error is printed.\<close>

definition report :: "nat \<Rightarrow> error option \<Rightarrow> 'f loop_state \<Rightarrow> 'f loop_state" where
  "report c err st =
     (case err of None \<Rightarrow> st
      | Some e \<Rightarrow> st\<lparr>clock := Suc (clock st), stdout := stdout st @ [(c, e)]\<rparr>)"

definition id_line :: "string list \<Rightarrow> 'f loop_state \<Rightarrow> 'f loop_state" where
  "id_line idMatches st = upd_data (\<lambda>d. d\<lparr>ID := fst (Atoi (idMatches ! 1))\<rparr>) st"

definition time_line :: "'f golib \<Rightarrow> nat \<Rightarrow> string list \<Rightarrow> 'f loop_state \<Rightarrow> 'f loop_state" where
  "time_line E c timeMatches st =
     (let (t1, err1) = parseSrtTime E (clock st) (timeMatches ! 1);
          st1 = report c err1 (upd_data (\<lambda>d. d\<lparr>Start := t1\<rparr>) st);
          (t2, err2) = parseSrtTime E (clock st1) (timeMatches ! 2)
      in report c err2 (upd_data (\<lambda>d. d\<lparr>End := t2\<rparr>) st1))"

definition decode :: "'f golib \<Rightarrow> string list \<Rightarrow> 'f MetrologySample \<Rightarrow> 'f MetrologySample" where
  "decode E dataMatches d =
     d\<lparr>FStop := fst (ParseFloat E (dataMatches ! 1)),
       Shutter := fst (ParseFloat E (dataMatches ! 2)),
       ISO := fst (Atoi (dataMatches ! 3)),
       EV := fst (ParseFloat E (dataMatches ! 4)),
       Zoom := fst (Atoi (dataMatches ! 5)),
       Longitude := fst (ParseFloat E (dataMatches ! 6)),
       Latitude := fst (ParseFloat E (dataMatches ! 7)),
       Sources := fst (Atoi (dataMatches ! 8)),
       DTH := fst (ParseFloat E (dataMatches ! 9)),
       Altitude := fst (ParseFloat E (dataMatches ! 10)),
       HorizontalSpeed := fst (ParseFloat E (dataMatches ! 11)),
       VerticalSpeed := fst (ParseFloat E (dataMatches ! 11))\<rparr>"

text \<open>The heading: computed from the third appended sample on, from the sample last
  appended, read through its pointer after \<^verbatim>\<open>data\<close> was decoded.\<close>

definition heading :: "'f golib \<Rightarrow> 'f loop_state \<Rightarrow> panic + 'f loop_state" where
  "heading E st =
     (if dataLen st > 1 then
        (if dataLen st - 1 < length (metrology st) then
           let prev = metrology st ! (dataLen st - 1);
               bearing = BearingTo E
                 \<lparr>lat = Latitude (heap st prev), lng = Longitude (heap st prev)\<rparr>
                 \<lparr>lat = Latitude (heap st (data st)), lng = Longitude (heap st (data st))\<rparr>
           in if feq E bearing (fconst E 0) \<or> feq E bearing (fconst E 180)
              then Inr (upd_data (\<lambda>d. d\<lparr>Bearing := Bearing (heap st prev)\<rparr>) st)
              else Inr (upd_data (\<lambda>d. d\<lparr>Bearing := bearing\<rparr>) st)
         else Inl IndexOutOfRange)
      else Inr st)"

definition data_line :: "'f golib \<Rightarrow> string list \<Rightarrow> 'f loop_state \<Rightarrow> panic + 'f loop_state" where
  "data_line E dataMatches st =
     (if length dataMatches < 12 then Inl IndexOutOfRange
      else case heading E (upd_data (decode E dataMatches) st) of
             Inl e \<Rightarrow> Inl e
           | Inr st' \<Rightarrow>
               Inr (st'\<lparr>metrology := metrology st' @ [data st'], dataLen := Suc (dataLen st')\<rparr>))"

text \<open>The body of the loop, for the line \<open>l\<close> at index \<open>c\<close>.\<close>

definition step :: "'f golib \<Rightarrow> nat \<Rightarrow> string \<Rightarrow> 'f loop_state \<Rightarrow> panic + 'f loop_state" where
  "step E c l st =
     (if l = [] then Inr (new_data E st)
      else let idMatches = FindStringSubmatch r1 l in
        if length idMatches = 2 then Inr (id_line idMatches st)
        else let timeMatches = FindStringSubmatch r2 l in
          if length timeMatches = 3 then Inr (time_line E c timeMatches st)
          else let dataMatches = FindStringSubmatch r3 l in
            if length dataMatches \<ge> 3 then data_line E dataMatches st
            else Inr st)"

fun loop :: "'f golib \<Rightarrow> nat \<Rightarrow> string list \<Rightarrow> 'f loop_state \<Rightarrow> panic + 'f loop_state" where
  "loop E c [] st = Inr st"
| "loop E c (l # ls) st =
     (case step E c l st of Inl e \<Rightarrow> Inl e | Inr st' \<Rightarrow> loop E (Suc c) ls st')"

text \<open>\<^verbatim>\<open>parseSRT\<close> returns the slice of pointers; with the heap it is the final state of
  the loop. \<open>samples\<close> reads the slice through the heap.\<close>

definition parseSRT :: "'f golib \<Rightarrow> string \<Rightarrow> panic + 'f loop_state" where
  "parseSRT E b =
     (if length b < 3 then Inl SliceBoundsOutOfRange
      else loop E 0 (Split (drop 3 b) line_feed) (init_state E))"

definition samples :: "'f loop_state \<Rightarrow> 'f MetrologySample list" where
  "samples st = map (heap st) (metrology st)"

section \<open>An exact library\<close>

text \<open>
  A library for running the parser on examples: \<^verbatim>\<open>float64\<close> is \<^typ>\<open>real\<close>, arithmetic
  is exact, \<open>ParseFloat\<close> reads a decimal numeral (sign, digits, at most one point, no
  exponent) to its exact value and rejects everything else with the value 0, and the clock
  shows eight o'clock on November 1, 2026, plus one nanosecond per reading.
\<close>

definition nat_of_digits :: "string \<Rightarrow> nat" where
  "nat_of_digits s = foldl (\<lambda>n c. n * 10 + digit_val c) 0 s"

definition ParseFloat_exact :: "string \<Rightarrow> real \<times> error option" where
  "ParseFloat_exact s =
     (let neg = (s \<noteq> [] \<and> hd s = CHR ''-'');
          body = (if s \<noteq> [] \<and> (hd s = CHR ''+'' \<or> hd s = CHR ''-'') then tl s else s);
          ip = takeWhile (\<lambda>c. c \<in> set digits) body;
          rest = dropWhile (\<lambda>c. c \<in> set digits) body;
          fp = (if rest \<noteq> [] \<and> hd rest = CHR ''.'' then tl rest else rest)
      in if (\<forall>c \<in> set fp. c \<in> set digits) \<and> (ip \<noteq> [] \<or> fp \<noteq> []) then
           let v = real (nat_of_digits (ip @ fp)) / 10 ^ length fp
           in (if neg then - v else v, None)
         else (0, Some ErrSyntax))"

definition Atan2_exact :: "real \<Rightarrow> real \<Rightarrow> real" where
  "Atan2_exact y x =
     (if x > 0 then arctan (y / x)
      else if x < 0 then (if y \<ge> 0 then arctan (y / x) + pi else arctan (y / x) - pi)
      else if y > 0 then pi / 2 else if y < 0 then - pi / 2 else 0)"

definition exact :: "real golib" where
  "exact =
     \<lparr>ParseFloat = ParseFloat_exact, fconst = real_of_int, fPi = pi,
      fsub = (\<lambda>a b. a - b), fmul = (\<lambda>a b. a * b), fdiv = (\<lambda>a b. a / b),
      fSin = sin, fCos = cos, fAtan2 = Atan2_exact, feq = (\<lambda>a b. a = b),
      Now = (\<lambda>k. Date 2026 11 1 8 0 0 (int k))\<rparr>"

section \<open>The earlier variant of the parser\<close>

text \<open>
  The second source file holds an earlier \<^verbatim>\<open>parseSRT\<close>: the sample has a field
  \<^verbatim>\<open>Direction\<close> and no bearing, the two GPS captures go to the other fields, and \<^verbatim>\<open>data\<close>
  is allocated anew for every line that is not blank. An index line and a time-range line
  therefore write to a sample that is dropped at \<^verbatim>\<open>continue\<close>, and a sample that was
  appended is never written again: the slice is held as the list of its samples. The names
  of this variant end in a prime.
\<close>

record 'f MetrologySample' =
  ID' :: int
  Start' :: Time
  End' :: Time
  FStop' :: 'f
  Shutter' :: 'f
  ISO' :: int
  EV' :: 'f
  Zoom' :: int
  Latitude' :: 'f
  Longitude' :: 'f
  Direction' :: int
  DTH' :: 'f
  Altitude' :: 'f
  HorizontalSpeed' :: 'f
  VerticalSpeed' :: 'f

definition emptySample' :: "'f golib \<Rightarrow> 'f MetrologySample'" where
  "emptySample' E =
     \<lparr>ID' = 0, Start' = zeroTime, End' = zeroTime, FStop' = fconst E 0, Shutter' = fconst E 0,
      ISO' = 0, EV' = fconst E 0, Zoom' = 0, Latitude' = fconst E 0, Longitude' = fconst E 0,
      Direction' = 0, DTH' = fconst E 0, Altitude' = fconst E 0,
      HorizontalSpeed' = fconst E 0, VerticalSpeed' = fconst E 0\<rparr>"

record 'f loop_state' =
  metrology' :: "'f MetrologySample' list"
  clock' :: nat
  stdout' :: "(nat \<times> error) list"

definition report' :: "nat \<Rightarrow> error option \<Rightarrow> 'f loop_state' \<Rightarrow> 'f loop_state'" where
  "report' c err st =
     (case err of None \<Rightarrow> st
      | Some e \<Rightarrow> st\<lparr>clock' := Suc (clock' st), stdout' := stdout' st @ [(c, e)]\<rparr>)"

definition time_line' :: "'f golib \<Rightarrow> nat \<Rightarrow> string list \<Rightarrow> 'f loop_state' \<Rightarrow> 'f loop_state'" where
  "time_line' E c timeMatches st =
     (let (t1, err1) = parseSrtTime E (clock' st) (timeMatches ! 1);
          st1 = report' c err1 st;
          (t2, err2) = parseSrtTime E (clock' st1) (timeMatches ! 2)
      in report' c err2 st1)"

definition decode' :: "'f golib \<Rightarrow> string list \<Rightarrow> 'f MetrologySample' \<Rightarrow> 'f MetrologySample'" where
  "decode' E dataMatches d =
     d\<lparr>FStop' := fst (ParseFloat E (dataMatches ! 1)),
       Shutter' := fst (ParseFloat E (dataMatches ! 2)),
       ISO' := fst (Atoi (dataMatches ! 3)),
       EV' := fst (ParseFloat E (dataMatches ! 4)),
       Zoom' := fst (Atoi (dataMatches ! 5)),
       Latitude' := fst (ParseFloat E (dataMatches ! 6)),
       Longitude' := fst (ParseFloat E (dataMatches ! 7)),
       Direction' := fst (Atoi (dataMatches ! 8)),
       DTH' := fst (ParseFloat E (dataMatches ! 9)),
       Altitude' := fst (ParseFloat E (dataMatches ! 10)),
       HorizontalSpeed' := fst (ParseFloat E (dataMatches ! 11)),
       VerticalSpeed' := fst (ParseFloat E (dataMatches ! 11))\<rparr>"

definition step' :: "'f golib \<Rightarrow> nat \<Rightarrow> string \<Rightarrow> 'f loop_state' \<Rightarrow> panic + 'f loop_state'" where
  "step' E c l st =
     (if l = [] then Inr st
      else let idMatches = FindStringSubmatch r1 l in
        if length idMatches = 2 then Inr st
        else let timeMatches = FindStringSubmatch r2 l in
          if length timeMatches = 3 then Inr (time_line' E c timeMatches st)
          else let dataMatches = FindStringSubmatch r3 l in
            if length dataMatches \<ge> 3 then
              (if length dataMatches < 12 then Inl IndexOutOfRange
               else Inr (st\<lparr>metrology' :=
                              metrology' st @ [decode' E dataMatches (emptySample' E)]\<rparr>))
            else Inr st)"

fun loop' :: "'f golib \<Rightarrow> nat \<Rightarrow> string list \<Rightarrow> 'f loop_state' \<Rightarrow> panic + 'f loop_state'" where
  "loop' E c [] st = Inr st"
| "loop' E c (l # ls) st =
     (case step' E c l st of Inl e \<Rightarrow> Inl e | Inr st' \<Rightarrow> loop' E (Suc c) ls st')"

definition parseSRT' :: "'f golib \<Rightarrow> string \<Rightarrow> panic + 'f loop_state'" where
  "parseSRT' E b =
     (if length b < 3 then Inl SliceBoundsOutOfRange
      else loop' E 0 (Split (drop 3 b) line_feed)
             \<lparr>metrology' = [], clock' = 0, stdout' = []\<rparr>)"

section \<open>Notions for stating the properties\<close>

text \<open>The lines of an input, and the state of the loop after its first \<open>n\<close> lines.\<close>

definition lines_of :: "string \<Rightarrow> string list" where
  "lines_of b = Split (drop 3 b) line_feed"

definition run :: "'f golib \<Rightarrow> string \<Rightarrow> nat \<Rightarrow> panic + 'f loop_state" where
  "run E b n = loop E 0 (take n (lines_of b)) (init_state E)"

definition run' :: "'f golib \<Rightarrow> string \<Rightarrow> nat \<Rightarrow> panic + 'f loop_state'" where
  "run' E b n = loop' E 0 (take n (lines_of b)) \<lparr>metrology' = [], clock' = 0, stdout' = []\<rparr>"

text \<open>The three classifiers in the order of the loop: the first that matches takes the
  line.\<close>

definition is_id_line :: "string \<Rightarrow> bool" where
  "is_id_line l \<longleftrightarrow> l \<noteq> [] \<and> length (FindStringSubmatch r1 l) = 2"

definition is_time_line :: "string \<Rightarrow> bool" where
  "is_time_line l \<longleftrightarrow>
     l \<noteq> [] \<and> length (FindStringSubmatch r1 l) \<noteq> 2 \<and> length (FindStringSubmatch r2 l) = 3"


text \<open>The number of capture groups of a pattern.\<close>

fun ngroups :: "item list \<Rightarrow> nat" where
  "ngroups [] = 0"
| "ngroups (GStar cls # p) = Suc (ngroups p)"
| "ngroups (GPlus cls # p) = Suc (ngroups p)"
| "ngroups (x # p) = ngroups p"

text \<open>\<^verbatim>\<open>dataLen\<close> counts the entries of \<^verbatim>\<open>metrology\<close>.\<close>

definition counted :: "'f loop_state \<Rightarrow> bool" where
  "counted st \<longleftrightarrow> dataLen st = length (metrology st)"

text \<open>The example of the source's header comment, behind three marker bytes.\<close>

definition ex_data :: string where
  "ex_data = ''F/2.8, SS 141.87, ISO 110, EV -0.7, DZOOM 1.000, GPS (-69.9191, 46.8451, 19), D 31.42m, H 11.80m, H.S 1.00m/s, V.S 0.70m/s''"

definition ex_block :: string where
  "ex_block = [CHR 0xEF, CHR 0xBB, CHR 0xBF] @ ''44'' @ [line_feed]
     @ ''00:00:43,000 --> 00:00:44,000'' @ [line_feed] @ ex_data"

text \<open>The samples of a result, read through the heap; none after a panic.\<close>

definition parsed :: "panic + 'f loop_state \<Rightarrow> 'f MetrologySample list" where
  "parsed r = (case r of Inl e \<Rightarrow> [] | Inr st \<Rightarrow> samples st)"



text \<open>The example block with a start token of two digit groups only.\<close>

definition ex_bad_time :: string where
  "ex_bad_time = [CHR 0xEF, CHR 0xBB, CHR 0xBF] @ ''44'' @ [line_feed]
     @ ''1:02 --> 00:00:44,000'' @ [line_feed] @ ex_data"





text \<open>A capture put before the captures of the rest of a match.\<close>

definition with_group :: "string \<Rightarrow> (string list \<times> string) option \<Rightarrow> (string list \<times> string) option" where
  "with_group u m = (case m of None \<Rightarrow> None | Some (gs, r) \<Rightarrow> Some (u # gs, r))"


text \<open>A text holds four groups of digits with colons between them.\<close>

definition has_time_form :: "string \<Rightarrow> bool" where
  "has_time_form s \<longleftrightarrow>
     (\<exists>pre h m sec ms post.
        s = pre @ h @ '':'' @ m @ '':'' @ sec @ '':'' @ ms @ post
        \<and> h \<noteq> [] \<and> m \<noteq> [] \<and> sec \<noteq> [] \<and> ms \<noteq> []
        \<and> set (h @ m @ sec @ ms) \<subseteq> set digits)"

section \<open>Patterns and their captures\<close>

lemma skip_group_Some:
  "skip_group m = Some (gs, r) \<longleftrightarrow> (\<exists>gs'. m = Some (gs', r) \<and> gs = [] # gs')"
  by (auto simp: skip_group_def split: option.splits)

lemma grow_group_Some:
  "grow_group x m = Some (gs, r) \<longleftrightarrow> (\<exists>g gs'. m = Some (g # gs', r) \<and> gs = (x # g) # gs')"
  by (auto simp: grow_group_def split: option.splits list.splits)

lemma match_here_ngroups: "match_here p i s = Some (gs, r) \<Longrightarrow> length gs = ngroups p"
proof (induction p i s arbitrary: gs r rule: match_here.induct)
  case (9 cls p i x xs)
  then show ?case
    by (fastforce simp: skip_group_Some grow_group_Some split: if_splits option.splits)
qed (fastforce simp: skip_group_Some grow_group_Some split: if_splits)+

lemma find_from_length: "find_from p i s = [] \<or> length (find_from p i s) = Suc (ngroups p)"
proof (induction s arbitrary: i)
  case Nil
  show ?case by (auto split: option.splits dest: match_here_ngroups)
next
  case (Cons x xs)
  show ?case using Cons[of "Suc i"]
    by (auto split: option.splits dest: match_here_ngroups)
qed

lemma ngroups_append: "ngroups (p @ q) = ngroups p + ngroups q"
  by (induction p rule: ngroups.induct) auto

lemma ngroups_lit: "ngroups (lit s) = 0"
  by (induction s) (auto simp: lit_def)

lemma r3_length: "FindStringSubmatch r3 l = [] \<or> length (FindStringSubmatch r3 l) = 13"
proof -
  have "ngroups r3 = 12" by (simp add: r3_def ngroups_append ngroups_lit)
  then show ?thesis using find_from_length[of r3 0 l] by (simp add: FindStringSubmatch_def)
qed


section \<open>The loop never panics\<close>

lemma counted_simps:
  "counted (upd_data f st) = counted st" "counted (new_data E st) = counted st"
  "counted (report c e st) = counted st" "counted (id_line m st) = counted st"
  "counted (init_state E)"
  by (auto simp: counted_def upd_data_def new_data_def report_def id_line_def init_state_def
           split: option.splits)

lemma counted_time_line: "counted (time_line E c m st) = counted st"
  by (simp add: time_line_def counted_simps Let_def split: prod.splits)

lemma heading_total:
  "counted st \<Longrightarrow> \<exists>st'. heading E st = Inr st' \<and> counted st' \<and> metrology st' = metrology st
     \<and> dataLen st' = dataLen st \<and> data st' = data st"
  by (auto simp: heading_def counted_def Let_def upd_data_def)

lemma data_line_total:
  assumes "counted st" "length m = 13"
  shows "\<exists>st'. data_line E m st = Inr st' \<and> counted st'
           \<and> metrology st' = metrology st @ [data st] \<and> data st' = data st"
proof -
  have w: "counted (upd_data (decode E m) st)" using assms by (simp add: counted_simps)
  from heading_total[OF w, of E] obtain st1 where
    h: "heading E (upd_data (decode E m) st) = Inr st1" "counted st1"
       "metrology st1 = metrology (upd_data (decode E m) st)"
       "data st1 = data (upd_data (decode E m) st)"
    by blast
  then show ?thesis using assms
    by (simp add: data_line_def counted_def upd_data_def)
qed

lemma step_total: assumes "counted st" shows "\<exists>st'. step E c l st = Inr st' \<and> counted st'"
proof -
  have "length (FindStringSubmatch r3 l) \<ge> 3 \<Longrightarrow> length (FindStringSubmatch r3 l) = 13"
    using r3_length[of l] by auto
  then show ?thesis using assms data_line_total[of st "FindStringSubmatch r3 l" E]
    by (auto simp: step_def Let_def counted_simps counted_time_line)
qed

lemma loop_total: "counted st \<Longrightarrow> \<exists>st'. loop E c ls st = Inr st' \<and> counted st'"
proof (induction ls arbitrary: c st)
  case Nil then show ?case by simp
next
  case (Cons l ls)
  from step_total[OF Cons.prems, of E c l] obtain st1
    where "step E c l st = Inr st1" "counted st1" by blast
  then show ?case using Cons.IH[of st1 "Suc c"] by simp
qed



lemma loop_append:
  "loop E c (xs @ ys) st =
     (case loop E c xs st of Inl e \<Rightarrow> Inl e | Inr st' \<Rightarrow> loop E (c + length xs) ys st')"
  by (induction xs arbitrary: c st) (auto split: sum.splits)

lemma loop'_append:
  "loop' E c (xs @ ys) st =
     (case loop' E c xs st of Inl e \<Rightarrow> Inl e | Inr st' \<Rightarrow> loop' E (c + length xs) ys st')"
  by (induction xs arbitrary: c st) (auto split: sum.splits)

lemma run_total: "\<exists>st. run E b n = Inr st \<and> counted st"
  unfolding run_def by (rule loop_total) (simp add: counted_simps)

lemma run_0: "run E b 0 = Inr (init_state E)"
  by (simp add: run_def)

lemma run_Suc:
  assumes "n < length (lines_of b)" "run E b n = Inr st"
  shows "run E b (Suc n) = step E n (lines_of b ! n) st"
proof -
  have "take (Suc n) (lines_of b) = take n (lines_of b) @ [lines_of b ! n]"
    using assms(1) by (simp add: take_Suc_conv_app_nth)
  then show ?thesis using assms by (simp add: run_def loop_append split: sum.splits)
qed



lemma run'_Suc:
  assumes "n < length (lines_of b)" "run' E b n = Inr st"
  shows "run' E b (Suc n) = step' E n (lines_of b ! n) st"
proof -
  have "take (Suc n) (lines_of b) = take n (lines_of b) @ [lines_of b ! n]"
    using assms(1) by (simp add: take_Suc_conv_app_nth)
  then show ?thesis using assms by (simp add: run'_def loop'_append split: sum.splits)
qed


section \<open>What one line does to the state\<close>














section \<open>The example block\<close>

lemmas strconv_defs = Atoi_def ParseUint_def digits_def digit_val_def maxUint64_def
  maxInt64_def minInt64_def

lemmas regexp_defs = FindStringSubmatch_def r1_def r2_def r3_def time_re_def lit_def
  skip_group_def grow_group_def line_feed_def






lemmas time_defs = parseSrtTime_def normalize_def ReplaceAll_def Count_def makeTime_def
  wrap64_def

lemmas loop_defs = parseSRT_def step_def id_line_def time_line_def data_line_def heading_def
  decode_def upd_data_def new_data_def init_state_def report_def emptySample_def

lemmas loop'_defs = parseSRT'_def step'_def time_line'_def decode'_def report'_def
  emptySample'_def


lemma ex_block_parse':
  "parseSRT' E ex_block =
     Inr \<lparr>metrology' = [
              \<lparr>ID' = 0, Start' = zeroTime, End' = zeroTime,
               FStop' = fst (ParseFloat E ''2.8''), Shutter' = fst (ParseFloat E ''141.87''),
               ISO' = 110, EV' = fst (ParseFloat E ''-0.7''), Zoom' = 0,
               Latitude' = fst (ParseFloat E ''-69.9191''),
               Longitude' = fst (ParseFloat E ''46.8451''), Direction' = 19,
               DTH' = fst (ParseFloat E ''31.42''),
               Altitude' = fst (ParseFloat E ''11.80''),
               HorizontalSpeed' = fst (ParseFloat E ''1.00''),
               VerticalSpeed' = fst (ParseFloat E ''1.00'')\<rparr>],
          clock' = 0, stdout' = []\<rparr>"
  by (simp add: loop'_defs time_defs regexp_defs strconv_defs ex_block_def ex_data_def)




lemma early_variant_gps_order:
  "map Latitude' (case parseSRT' E ex_block of Inl e \<Rightarrow> [] | Inr st \<Rightarrow> metrology' st)
     = [fst (ParseFloat E ''-69.9191'')]"
  "map Longitude' (case parseSRT' E ex_block of Inl e \<Rightarrow> [] | Inr st \<Rightarrow> metrology' st)
     = [fst (ParseFloat E ''46.8451'')]"
  by (simp_all add: ex_block_parse')








lemma parseSrtTime_error:
  "snd (parseSrtTime E k s) \<noteq> None \<Longrightarrow> fst (parseSrtTime E k s) = Now E k"
  by (auto simp: parseSrtTime_def Let_def split: if_splits prod.splits option.splits)

lemma time_line_step:
  assumes "is_time_line l"
  shows "step E c l st = Inr (time_line E c (FindStringSubmatch r2 l) st)"
  using assms by (simp add: step_def is_time_line_def)

lemma time_line_fields:
  fixes E c m st
  defines "p1 \<equiv> parseSrtTime E (clock st) (m ! 1)"
  defines "k \<equiv> (if snd p1 = None then clock st else Suc (clock st))"
  defines "p2 \<equiv> parseSrtTime E k (m ! 2)"
  defines "st' \<equiv> time_line E c m st"
  shows "Start (heap st' (data st)) = fst p1" "End (heap st' (data st)) = fst p2"
    "stdout st' = stdout st @ (case snd p1 of None \<Rightarrow> [] | Some e \<Rightarrow> [(c, e)])
                            @ (case snd p2 of None \<Rightarrow> [] | Some e \<Rightarrow> [(c, e)])"
    "clock st' = (if snd p2 = None then k else Suc k)"
    "metrology st' = metrology st" "dataLen st' = dataLen st" "data st' = data st"
    "allocs st' = allocs st"
  unfolding st'_def p2_def k_def p1_def
  by (auto simp: time_line_def Let_def report_def upd_data_def split: prod.splits option.splits)

lemma ex_bad_time_lines:
  "lines_of ex_bad_time = [''44'', ''1:02 --> 00:00:44,000'', ex_data]"
  by (simp add: lines_of_def ex_bad_time_def ex_data_def line_feed_def)

lemma ex_bad_time_captures:
  "FindStringSubmatch r2 ''1:02 --> 00:00:44,000'' = [''1:02 --> 00:00:44,000'', ''1:02'', ''00:00:44,000'']"
  "FindStringSubmatch r1 ''1:02 --> 00:00:44,000'' = []"
  by (simp_all add: regexp_defs digits_def)

lemma ex_bad_time_tokens:
  "parseSrtTime E k ''1:02'' = (Now E k, Some (RegexpDidntMatch ''1:02''))"
  "parseSrtTime E k ''00:00:44,000'' = (Date 0 1 1 0 0 44 0, None)"
  by (simp_all add: time_defs regexp_defs strconv_defs)























section \<open>Matching a line that is given by its tokens\<close>

lemma grow_with_group: "grow_group x (with_group u m) = with_group (x # u) m"
  by (simp add: grow_group_def with_group_def split: option.splits)

lemma skip_with_group: "skip_group m = with_group [] m"
  by (simp add: skip_group_def with_group_def)

lemma with_group_case: "(case with_group u m of None \<Rightarrow> a | Some y \<Rightarrow> Some y) = 
   (if m = None then a else with_group u m)"
  by (simp add: with_group_def split: option.splits)

lemma star_then_char:
  assumes "set u \<subseteq> set cls" "c \<notin> set cls"
  shows "match_here (GStar cls # Ch c # p) i (u @ c # s)
           = with_group u (match_here p (Suc (i + length u)) s)"
  using assms(1)
proof (induction u arbitrary: i)
  case Nil
  then show ?case using assms(2) by (simp add: skip_with_group)
next
  case (Cons x u)
  then have x: "x \<in> set cls" "x \<noteq> c" using assms(2) by auto
  show ?case using Cons x
    by (simp add: grow_with_group with_group_case skip_with_group) (simp add: with_group_def)
qed

lemma plus_then_char:
  assumes "set u \<subseteq> set cls" "c \<notin> set cls" "u \<noteq> []"
  shows "match_here (GPlus cls # Ch c # p) i (u @ c # s)
           = with_group u (match_here p (Suc (i + length u)) s)"
proof -
  obtain x u' where u: "u = x # u'" using assms(3) by (cases u) auto
  then show ?thesis using assms(1,2) star_then_char[of u' cls c p "Suc i" s]
    by (simp add: grow_with_group)
qed

lemma star_at_end:
  assumes "set u \<subseteq> set cls"
  shows "match_here [GStar cls] i u = Some ([u], [])"
  using assms
  by (induction u arbitrary: i) (simp_all add: skip_group_def grow_group_def)

lemma plus_at_end:
  assumes "set u \<subseteq> set cls" "u \<noteq> []"
  shows "match_here [GPlus cls] i u = Some ([u], [])"
  using assms star_at_end[of "tl u" cls "Suc i"]
  by (cases u) (simp_all add: grow_group_def set_subset_Cons)













lemma class_no_arrow:
  "set u \<subseteq> set ''0123456789.'' \<Longrightarrow> CHR ''>'' \<notin> set u"
  "set u \<subseteq> set ''0123456789.-'' \<Longrightarrow> CHR ''>'' \<notin> set u"
  by auto



lemma ex_block_times:
  "parseSrtTime E k ''00:00:43,000'' = (Date 0 1 1 0 0 43 0, None)"
  "parseSrtTime E k ''00:00:44,000'' = (Date 0 1 1 0 0 44 0, None)"
  by (simp_all add: time_defs regexp_defs strconv_defs)



section \<open>The time pattern and the integer conversion\<close>

lemma star_at_end_det:
  "match_here [GStar cls] i s
     = Some ([takeWhile (\<lambda>x. x \<in> set cls) s], dropWhile (\<lambda>x. x \<in> set cls) s)"
  by (induction s arbitrary: i) (simp_all add: skip_group_def grow_group_def)

lemma plus_at_end_det:
  "match_here [GPlus cls] i s
     = (if takeWhile (\<lambda>x. x \<in> set cls) s = [] then None
        else Some ([takeWhile (\<lambda>x. x \<in> set cls) s], dropWhile (\<lambda>x. x \<in> set cls) s))"
  by (cases s) (simp_all add: star_at_end_det grow_group_def del: match_here.simps(8,9))

lemma grow_group_None: "grow_group x None = None"
  by (simp add: grow_group_def)

lemma star_char_det:
  assumes "c \<notin> set cls"
  shows "match_here (GStar cls # Ch c # p) i s
     = (case dropWhile (\<lambda>x. x \<in> set cls) s of
          [] \<Rightarrow> None
        | y # s' \<Rightarrow>
            if y = c then with_group (takeWhile (\<lambda>x. x \<in> set cls) s)
                  (match_here p (Suc (i + length (takeWhile (\<lambda>x. x \<in> set cls) s))) s')
            else None)"
proof (induction s arbitrary: i)
  case Nil
  show ?case by (simp add: skip_group_def)
next
  case (Cons x xs)
  show ?case
  proof (cases "x \<in> set cls")
    case True
    then have "x \<noteq> c" using assms by auto
    then have lhs: "match_here (GStar cls # Ch c # p) i (x # xs)
        = grow_group x (match_here (GStar cls # Ch c # p) (Suc i) xs)"
      using True by (simp add: skip_group_def split: option.splits)
    show ?thesis unfolding lhs Cons[of "Suc i"] using True
      by (cases "dropWhile (\<lambda>x. x \<in> set cls) xs")
         (simp_all add: grow_with_group grow_group_None del: dropWhile_eq_Nil_conv)
  next
    case False
    then show ?thesis using assms by (simp add: skip_with_group) (simp add: with_group_def)
  qed
qed

lemma plus_char_det:
  assumes "c \<notin> set cls"
  shows "match_here (GPlus cls # Ch c # p) i s
     = (if takeWhile (\<lambda>x. x \<in> set cls) s = [] then None
        else case dropWhile (\<lambda>x. x \<in> set cls) s of
          [] \<Rightarrow> None
        | y # s' \<Rightarrow>
            if y = c then with_group (takeWhile (\<lambda>x. x \<in> set cls) s)
                  (match_here p (Suc (i + length (takeWhile (\<lambda>x. x \<in> set cls) s))) s')
            else None)"
proof (cases s)
  case Nil
  then show ?thesis by simp
next
  case (Cons x xs)
  show ?thesis
  proof (cases "x \<in> set cls")
    case True
    then have lhs: "match_here (GPlus cls # Ch c # p) i (x # xs)
        = grow_group x (match_here (GStar cls # Ch c # p) (Suc i) xs)"
      by simp
    show ?thesis unfolding Cons lhs star_char_det[OF assms] using True
      by (cases "dropWhile (\<lambda>x. x \<in> set cls) xs")
         (simp_all add: grow_with_group grow_group_None del: dropWhile_eq_Nil_conv)
  next
    case False
    then show ?thesis unfolding Cons by simp
  qed
qed


lemma plus_char_inv:
  assumes "c \<notin> set cls" "match_here (GPlus cls # Ch c # p) i s = Some (gs, r)"
  shows "\<exists>u s' gs'. s = u @ c # s' \<and> u \<noteq> [] \<and> set u \<subseteq> set cls \<and> gs = u # gs'
    \<and> match_here p (Suc (i + length u)) s' = Some (gs', r)"
proof -
  let ?u = "takeWhile (\<lambda>x. x \<in> set cls) s"
  let ?d = "dropWhile (\<lambda>x. x \<in> set cls) s"
  from assms(2) have ne: "?u \<noteq> []"
    by (simp add: plus_char_det[OF assms(1)] split: if_splits)
  from assms(2) ne obtain s' where d: "?d = c # s'"
    and w: "with_group ?u (match_here p (Suc (i + length ?u)) s') = Some (gs, r)"
    by (auto simp add: plus_char_det[OF assms(1)] split: if_splits list.splits
          simp del: dropWhile_eq_Nil_conv takeWhile_eq_Nil_iff)
  from w obtain gs' where "gs = ?u # gs'" "match_here p (Suc (i + length ?u)) s' = Some (gs', r)"
    by (auto simp: with_group_def split: option.splits)
  moreover have "s = ?u @ c # s'" using d takeWhile_dropWhile_id[of "\<lambda>x. x \<in> set cls" s] by simp
  moreover have "set ?u \<subseteq> set cls" by (auto dest: set_takeWhileD)
  ultimately show ?thesis using ne by blast
qed

lemma plus_end_inv:
  assumes "match_here [GPlus cls] i s = Some (gs, r)"
  shows "\<exists>u. s = u @ r \<and> u \<noteq> [] \<and> set u \<subseteq> set cls \<and> gs = [u]"
proof -
  let ?u = "takeWhile (\<lambda>x. x \<in> set cls) s"
  from assms have "?u \<noteq> []" "gs = [?u]" "r = dropWhile (\<lambda>x. x \<in> set cls) s"
    by (auto simp add: plus_at_end_det split: if_splits simp del: takeWhile_eq_Nil_iff)
  moreover have "set ?u \<subseteq> set cls" by (auto dest: set_takeWhileD)
  ultimately show ?thesis by (intro exI[of _ ?u]) simp
qed

lemma colon_no_digit: "CHR '':'' \<notin> set digits"
  by (simp add: digits_def)

lemma time_re_sound:
  assumes "match_here time_re i s = Some (gs, r)"
  shows "\<exists>h m sec ms. s = h @ '':'' @ m @ '':'' @ sec @ '':'' @ ms @ r
     \<and> h \<noteq> [] \<and> m \<noteq> [] \<and> sec \<noteq> [] \<and> ms \<noteq> []
     \<and> set (h @ m @ sec @ ms) \<subseteq> set digits \<and> gs = [h, m, sec, ms]"
proof -
  from plus_char_inv[OF colon_no_digit assms[unfolded time_re_def]] obtain h s1 g1 where
    1: "s = h @ CHR '':'' # s1" "h \<noteq> []" "set h \<subseteq> set digits" "gs = h # g1"
       "match_here [GPlus digits, Ch CHR '':'', GPlus digits, Ch CHR '':'', GPlus digits]
          (Suc (i + length h)) s1 = Some (g1, r)"
    by blast
  from plus_char_inv[OF colon_no_digit 1(5)] obtain m s2 g2 where
    2: "s1 = m @ CHR '':'' # s2" "m \<noteq> []" "set m \<subseteq> set digits" "g1 = m # g2"
       "match_here [GPlus digits, Ch CHR '':'', GPlus digits]
          (Suc (Suc (i + length h) + length m)) s2 = Some (g2, r)"
    by blast
  from plus_char_inv[OF colon_no_digit 2(5)] obtain sec s3 g3 where
    3: "s2 = sec @ CHR '':'' # s3" "sec \<noteq> []" "set sec \<subseteq> set digits" "g2 = sec # g3"
       "match_here [GPlus digits]
          (Suc (Suc (Suc (i + length h) + length m) + length sec)) s3 = Some (g3, r)"
    by blast
  from plus_end_inv[OF 3(5)] obtain ms where
    4: "s3 = ms @ r" "ms \<noteq> []" "set ms \<subseteq> set digits" "g3 = [ms]"
    by blast
  show ?thesis
    using 1(1-4) 2(1-4) 3(1-4) 4 by (intro exI[of _ h] exI[of _ m] exI[of _ sec] exI[of _ ms]) simp
qed

lemma time_re_complete:
  assumes "h \<noteq> []" "m \<noteq> []" "sec \<noteq> []" "ms \<noteq> []" "set (h @ m @ sec @ ms) \<subseteq> set digits"
  shows "match_here time_re i (h @ '':'' @ m @ '':'' @ sec @ '':'' @ ms @ post) \<noteq> None"
proof -
  have "takeWhile (\<lambda>x. x \<in> set digits) (ms @ post) \<noteq> []"
    using assms(4,5) by (cases ms) auto
  then show ?thesis using assms
    by (simp add: time_re_def plus_then_char colon_no_digit plus_at_end_det with_group_def
          del: takeWhile_eq_Nil_iff)
qed

lemma find_from_iff:
  "find_from p i s \<noteq> [] \<longleftrightarrow>
     (\<exists>pre rest. s = pre @ rest \<and> match_here p (i + length pre) rest \<noteq> None)"
proof (induction s arbitrary: i)
  case Nil
  show ?case by (auto split: option.splits)
next
  case (Cons x xs)
  show ?case (is "?L \<longleftrightarrow> ?R")
  proof (cases "match_here p i (x # xs)")
    case (Some a)
    then have "?L" by (cases a) simp
    moreover have "?R" using Some by (intro exI[of _ "[]"] exI[of _ "x # xs"]) simp
    ultimately show ?thesis by simp
  next
    case None
    have "?L \<longleftrightarrow> find_from p (Suc i) xs \<noteq> []" using None by simp
    also have "\<dots> \<longleftrightarrow> (\<exists>pre rest. xs = pre @ rest \<and> match_here p (Suc i + length pre) rest \<noteq> None)"
      by (rule Cons.IH)
    also have "\<dots> \<longleftrightarrow> ?R"
    proof
      assume "\<exists>pre rest. xs = pre @ rest \<and> match_here p (Suc i + length pre) rest \<noteq> None"
      then obtain pre rest where "xs = pre @ rest" "match_here p (Suc i + length pre) rest \<noteq> None"
        by blast
      then show ?R by (intro exI[of _ "x # pre"] exI[of _ rest]) simp
    next
      assume ?R
      then obtain pre rest where pr: "x # xs = pre @ rest"
        "match_here p (i + length pre) rest \<noteq> None" by blast
      show "\<exists>pre rest. xs = pre @ rest \<and> match_here p (Suc i + length pre) rest \<noteq> None"
      proof (cases pre)
        case Nil
        then show ?thesis using pr None by simp
      next
        case (Cons y pre')
        then show ?thesis using pr by (intro exI[of _ pre'] exI[of _ rest]) simp
      qed
    qed
    finally show ?thesis .
  qed
qed

lemma time_re_matches_iff: "FindStringSubmatch time_re s \<noteq> [] \<longleftrightarrow> has_time_form s"
proof
  assume "FindStringSubmatch time_re s \<noteq> []"
  then obtain pre rest where pr: "s = pre @ rest"
    "match_here time_re (0 + length pre) rest \<noteq> None"
    unfolding FindStringSubmatch_def find_from_iff by blast
  then obtain gs r where "match_here time_re (0 + length pre) rest = Some (gs, r)" by auto
  from time_re_sound[OF this] pr(1) show "has_time_form s"
    unfolding has_time_form_def by blast
next
  assume "has_time_form s"
  then obtain pre h m sec ms post where
    s: "s = pre @ h @ '':'' @ m @ '':'' @ sec @ '':'' @ ms @ post"
    and ne: "h \<noteq> []" "m \<noteq> []" "sec \<noteq> []" "ms \<noteq> []" "set (h @ m @ sec @ ms) \<subseteq> set digits"
    unfolding has_time_form_def by blast
  from time_re_complete[OF ne, of "0 + length pre" post] s
  show "FindStringSubmatch time_re s \<noteq> []"
    unfolding FindStringSubmatch_def find_from_iff by blast
qed

lemma foldl_digits_ge: "a \<le> foldl (\<lambda>n c. n * 10 + digit_val c) a cs"
proof (induction cs arbitrary: a)
  case Nil show ?case by simp
next
  case (Cons c cs)
  have "a \<le> a * 10 + digit_val c" by simp
  also have "\<dots> \<le> foldl (\<lambda>n c. n * 10 + digit_val c) (a * 10 + digit_val c) cs" by (rule Cons)
  finally show ?case by simp
qed

lemma ParseUint_loop_digits:
  assumes "set d \<subseteq> set digits" "n \<le> maxUint64"
  shows "ParseUint_loop n d =
    (if foldl (\<lambda>n c. n * 10 + digit_val c) n d \<le> maxUint64
     then (foldl (\<lambda>n c. n * 10 + digit_val c) n d, None) else (maxUint64, Some ErrRange))"
  using assms
proof (induction d arbitrary: n)
  case Nil
  then show ?case by simp
next
  case (Cons c cs)
  show ?case
  proof (cases "n * 10 + digit_val c > maxUint64")
    case True
    then have "foldl (\<lambda>n c. n * 10 + digit_val c) (n * 10 + digit_val c) cs > maxUint64"
      using foldl_digits_ge[of "n * 10 + digit_val c" cs] by simp
    then show ?thesis using True Cons.prems by simp
  next
    case False
    then show ?thesis using Cons.IH[of "n * 10 + digit_val c"] Cons.prems by simp
  qed
qed

lemma Atoi_digits:
  assumes "d \<noteq> []" "set d \<subseteq> set digits"
  shows "Atoi d = (if int (nat_of_digits d) \<le> maxInt64 then (int (nat_of_digits d), None)
                   else (maxInt64, Some ErrRange))"
proof -
  have "hd d \<in> set digits" using assms by (cases d) auto
  then have sign: "hd d \<noteq> CHR ''-''" "hd d \<noteq> CHR ''+''" by (auto simp: digits_def)
  have pu: "ParseUint d = (if nat_of_digits d \<le> maxUint64 then (nat_of_digits d, None)
                           else (maxUint64, Some ErrRange))"
    using assms by (simp add: ParseUint_def ParseUint_loop_digits nat_of_digits_def)
  show ?thesis
    using assms(1) sign
    by (simp add: Atoi_def pu) (auto simp: maxInt64_def maxUint64_def)
qed

lemma parseSrtTime_matched:
  assumes "FindStringSubmatch time_re (normalize inp) = [w, h, m, sec, ms]"
    "h \<noteq> []" "m \<noteq> []" "sec \<noteq> []" "ms \<noteq> []" "set (h @ m @ sec @ ms) \<subseteq> set digits"
  shows "parseSrtTime E k inp =
    (if int (nat_of_digits h) \<le> maxInt64 \<and> int (nat_of_digits m) \<le> maxInt64
        \<and> int (nat_of_digits sec) \<le> maxInt64 \<and> int (nat_of_digits ms) \<le> maxInt64
     then (makeTime (int (nat_of_digits h)) (int (nat_of_digits m)) (int (nat_of_digits sec))
             (int (nat_of_digits ms)), None)
     else (Now E k, Some ErrRange))"
proof -
  have a: "Atoi h = (if int (nat_of_digits h) \<le> maxInt64 then (int (nat_of_digits h), None)
                   else (maxInt64, Some ErrRange))"
    "Atoi m = (if int (nat_of_digits m) \<le> maxInt64 then (int (nat_of_digits m), None)
                   else (maxInt64, Some ErrRange))"
    "Atoi sec = (if int (nat_of_digits sec) \<le> maxInt64 then (int (nat_of_digits sec), None)
                   else (maxInt64, Some ErrRange))"
    "Atoi ms = (if int (nat_of_digits ms) \<le> maxInt64 then (int (nat_of_digits ms), None)
                   else (maxInt64, Some ErrRange))"
    using assms(2-6) by (simp_all add: Atoi_digits)
  show ?thesis
    unfolding parseSrtTime_def Let_def assms(1)
    by (simp add: a)
qed

lemma time_re_find_from:
  assumes "find_from time_re i s \<noteq> []"
  shows "\<exists>w h m sec ms. find_from time_re i s = [w, h, m, sec, ms]
     \<and> h \<noteq> [] \<and> m \<noteq> [] \<and> sec \<noteq> [] \<and> ms \<noteq> [] \<and> set (h @ m @ sec @ ms) \<subseteq> set digits"
  using assms
proof (induction s arbitrary: i)
  case Nil
  then show ?case
    by (auto split: option.splits dest!: time_re_sound)
next
  case (Cons x xs)
  show ?case
  proof (cases "match_here time_re i (x # xs)")
    case None
    then show ?thesis using Cons.IH[of "Suc i"] Cons.prems by simp
  next
    case (Some a)
    obtain gs r where a: "a = (gs, r)" by (cases a)
    from time_re_sound[OF Some[unfolded a]] show ?thesis
      using Some a by auto
  qed
qed

lemma time_re_find:
  assumes "FindStringSubmatch time_re s \<noteq> []"
  shows "\<exists>w h m sec ms. FindStringSubmatch time_re s = [w, h, m, sec, ms]
     \<and> h \<noteq> [] \<and> m \<noteq> [] \<and> sec \<noteq> [] \<and> ms \<noteq> [] \<and> set (h @ m @ sec @ ms) \<subseteq> set digits"
  using time_re_find_from[of 0 s] assms unfolding FindStringSubmatch_def by simp

lemma normalize_alt:
  "normalize inp =
     (let s = map (\<lambda>c. if c = CHR '','' \<or> c = CHR ''.'' then CHR '':'' else c) inp
      in if length (filter (\<lambda>c. c = CHR '':'') s) = 2 then s @ '':000'' else s)"
proof -
  have "ReplaceAll (ReplaceAll inp CHR '','' CHR '':'') CHR ''.'' CHR '':''
      = map (\<lambda>c. if c = CHR '','' \<or> c = CHR ''.'' then CHR '':'' else c) inp"
    by (simp add: ReplaceAll_def)
  then show ?thesis by (simp add: normalize_def Count_def Let_def)
qed

lemma digits_plain:
  assumes "set u \<subseteq> set digits"
  shows "map (\<lambda>c. if c = CHR '','' \<or> c = CHR ''.'' then CHR '':'' else c) u = u"
    "filter (\<lambda>c. c = CHR '':'') u = []"
proof -
  have "\<forall>c \<in> set u. c \<noteq> CHR '','' \<and> c \<noteq> CHR ''.'' \<and> c \<noteq> CHR '':''"
    using assms by (auto simp: digits_def)
  then show "map (\<lambda>c. if c = CHR '','' \<or> c = CHR ''.'' then CHR '':'' else c) u = u"
    "filter (\<lambda>c. c = CHR '':'') u = []"
    by (simp_all add: map_idI filter_empty_conv)
qed

lemma normalize_three_groups:
  assumes "set (h @ m @ sec) \<subseteq> set digits"
  shows "normalize (h @ '':'' @ m @ '':'' @ sec) = h @ '':'' @ m @ '':'' @ sec @ '':000''"
  using assms unfolding normalize_alt by (simp add: digits_plain Let_def)

lemma time_re_four_groups:
  assumes "h \<noteq> []" "m \<noteq> []" "sec \<noteq> []" "ms \<noteq> []" "set (h @ m @ sec @ ms) \<subseteq> set digits"
  shows "FindStringSubmatch time_re (h @ '':'' @ m @ '':'' @ sec @ '':'' @ ms)
     = [h @ '':'' @ m @ '':'' @ sec @ '':'' @ ms, h, m, sec, ms]"
proof -
  have "match_here time_re 0 (h @ '':'' @ m @ '':'' @ sec @ '':'' @ ms) = Some ([h, m, sec, ms], [])"
    using assms
    by (simp add: time_re_def plus_then_char colon_no_digit plus_at_end with_group_def)
  then show ?thesis
    unfolding FindStringSubmatch_def by (subst find_from.simps) simp
qed

lemma ex_big_hour:
  "FindStringSubmatch time_re (normalize ''99999999999999999999:00:00,000'')
     = [''99999999999999999999:00:00:000'', ''99999999999999999999'', ''00'', ''00'', ''000'']"
  "parseSrtTime E k ''99999999999999999999:00:00,000'' = (Now E k, Some ErrRange)"
  by (simp_all add: time_defs regexp_defs strconv_defs)

lemma ex_three_groups:
  "normalize ''1:02:03'' = ''1:02:03:000''" "normalize ''1:02'' = ''1:02''"
  "nat_of_digits ''1'' = 1" "nat_of_digits ''02'' = 2" "nat_of_digits ''03'' = 3"
  by (simp_all add: normalize_def ReplaceAll_def Count_def nat_of_digits_def digit_val_def)

section \<open>The bearing in exact arithmetic\<close>

text \<open>
  With the exact library the bearing lies above -180 and at most at 180 degrees (and the
  bearing of a point to itself is 0, \<open>BearingTo_exact_same\<close>). This says nothing of the
  \<^verbatim>\<open>float64\<close> results of the program, where signed zeros, infinities, not-a-number values
  and the rounding of package \<^verbatim>\<open>math\<close> decide; those stay with the library parameter.
\<close>

lemma Atan2_exact_range: "- pi < Atan2_exact y x \<and> Atan2_exact y x \<le> pi"
proof -
  have a: "- (pi / 2) < arctan (y / x)" "arctan (y / x) < pi / 2"
    using arctan_lbound[of "y / x"] arctan_ubound[of "y / x"] by simp_all
  have p: "0 < pi" by simp
  consider "x > 0" | "x < 0" "y \<ge> 0" | "x < 0" "y < 0" | "x = 0"
    by linarith
  then show ?thesis
  proof cases
    case 1
    then show ?thesis using a p by (simp add: Atan2_exact_def)
  next
    case 2
    then have "y / x \<le> 0" by (simp add: divide_nonneg_neg)
    then have "arctan (y / x) \<le> 0" using arctan_monotone'[of "y / x" 0] by simp
    then show ?thesis using 2 a p by (simp add: Atan2_exact_def)
  next
    case 3
    then have "0 < y / x" by (simp add: divide_neg_neg)
    then have "0 < arctan (y / x)" using arctan_monotone[of 0 "y / x"] by simp
    then show ?thesis using 3 a p by (simp add: Atan2_exact_def)
  next
    case 4
    consider "y > 0" | "y < 0" | "y = 0" by linarith
    then show ?thesis
    proof cases
      case 1
      then have "Atan2_exact y x = pi / 2" using 4 by (simp add: Atan2_exact_def)
      then show ?thesis using pi_gt_zero by linarith
    next
      case 2
      then have "Atan2_exact y x = - pi / 2" using 4 by (simp add: Atan2_exact_def)
      then show ?thesis using pi_gt_zero by linarith
    next
      case 3
      then have "Atan2_exact y x = 0" using 4 by (simp add: Atan2_exact_def)
      then show ?thesis using pi_gt_zero by linarith
    qed
  qed
qed

lemma BearingTo_exact_range:
  "- 180 < BearingTo exact p1 p2 \<and> BearingTo exact p1 p2 \<le> 180"
proof -
  obtain t where t: "BearingTo exact p1 p2 = t * 180 / pi" "- pi < t" "t \<le> pi"
    using Atan2_exact_range by (simp add: BearingTo_def exact_def Let_def)
  have p: "0 < pi" by simp
  have "- 180 < t * 180 / pi \<longleftrightarrow> - pi < t"
    using p by (simp add: field_simps)
  moreover have "t * 180 / pi \<le> 180 \<longleftrightarrow> t \<le> pi"
    using p by (simp add: field_simps)
  ultimately show ?thesis using t by simp
qed

section \<open>The claims\<close>












text \<open>
  C8, as amended. A line taken as a time-range line never stops the loop. Each of its two
  tokens is parsed; a token that fails is printed with its error and the line index, and
  the field (start for the first token, end for the second) receives the reading of the
  clock that the failing parser returned, \<^verbatim>\<open>time.Now()\<close>, not the zero time. The samples
  appended so far and the builder stay as they are.
\<close>

theorem failed_time_token_stores_clock_reading:
  assumes "n < length (lines_of b)" "is_time_line (lines_of b ! n)"
  shows "\<exists>st st'. run E b n = Inr st \<and> run E b (Suc n) = Inr st'
     \<and> (let m = FindStringSubmatch r2 (lines_of b ! n);
             p1 = parseSrtTime E (clock st) (m ! 1);
             k = (if snd p1 = None then clock st else Suc (clock st));
             p2 = parseSrtTime E k (m ! 2)
         in Start (heap st' (data st)) = fst p1 \<and> End (heap st' (data st)) = fst p2
          \<and> (snd p1 \<noteq> None \<longrightarrow> Start (heap st' (data st)) = Now E (clock st))
          \<and> (snd p2 \<noteq> None \<longrightarrow> End (heap st' (data st)) = Now E k)
          \<and> stdout st' = stdout st @ (case snd p1 of None \<Rightarrow> [] | Some e \<Rightarrow> [(n, e)])
                                   @ (case snd p2 of None \<Rightarrow> [] | Some e \<Rightarrow> [(n, e)]))
     \<and> metrology st' = metrology st \<and> dataLen st' = dataLen st \<and> data st' = data st
     \<and> (\<forall>k. \<exists>s. run E b k = Inr s)"
proof -
  let ?m = "FindStringSubmatch r2 (lines_of b ! n)"
  from run_total[of E b n] obtain st where st: "run E b n = Inr st" by blast
  let ?st' = "time_line E n ?m st"
  have r: "run E b (Suc n) = Inr ?st'"
    using run_Suc[OF assms(1) st] time_line_step[OF assms(2)] by simp
  have tot: "\<forall>k. \<exists>s. run E b k = Inr s" using run_total[of E b] by blast
  show ?thesis
    apply (rule exI[of _ st])
    apply (rule exI[of _ ?st'])
    using st r tot parseSrtTime_error[of E]
    by (simp add: Let_def time_line_fields)
qed

theorem failed_time_token_is_not_zero_time:
  "is_time_line ''1:02 --> 00:00:44,000''
   \<and> FindStringSubmatch r2 ''1:02 --> 00:00:44,000'' ! 1 = ''1:02''
   \<and> snd (parseSrtTime exact 0 ''1:02'') = Some (RegexpDidntMatch ''1:02'')
   \<and> map Start (parsed (parseSRT exact ex_bad_time)) = [Date 2026 11 1 8 0 0 0]
   \<and> Date 2026 11 1 8 0 0 0 \<noteq> zeroTime"
proof -
  have "map Start (parsed (parseSRT exact ex_bad_time)) = [Now exact 0]"
    by (simp add: parsed_def loop_defs regexp_defs time_defs strconv_defs ex_bad_time_def
          ex_data_def samples_def)
  then show ?thesis
    by (simp add: is_time_line_def ex_bad_time_captures ex_bad_time_tokens zeroTime_def)
       (simp add: exact_def)
qed

theorem failed_time_token_stores_clock_reading_witness:
  "1 < length (lines_of ex_bad_time) \<and> is_time_line (lines_of ex_bad_time ! 1)
   \<and> (\<exists>st st'. run exact ex_bad_time 1 = Inr st \<and> run exact ex_bad_time (Suc 1) = Inr st'
        \<and> clock st = 0
        \<and> Start (heap st' (data st)) = Date 2026 11 1 8 0 0 0
        \<and> End (heap st' (data st)) = Date 0 1 1 0 0 44 0
        \<and> stdout st' = stdout st @ [(1, RegexpDidntMatch ''1:02'')]
        \<and> metrology st' = metrology st \<and> data st' = data st)"
proof -
  have c: "1 < length (lines_of ex_bad_time)" "is_time_line (lines_of ex_bad_time ! 1)"
    by (simp_all add: ex_bad_time_lines is_time_line_def ex_bad_time_captures)
  have r1: "run exact ex_bad_time 1 = Inr (id_line [''44'', ''44''] (init_state exact))"
    by (simp add: run_def ex_bad_time_lines step_def regexp_defs digits_def)
  from failed_time_token_stores_clock_reading[OF c, of exact] obtain st st' where
    a: "run exact ex_bad_time 1 = Inr st" "run exact ex_bad_time (Suc 1) = Inr st'"
    and b: "let m = FindStringSubmatch r2 (lines_of ex_bad_time ! 1);
             p1 = parseSrtTime exact (clock st) (m ! 1);
             k = (if snd p1 = None then clock st else Suc (clock st));
             p2 = parseSrtTime exact k (m ! 2)
         in Start (heap st' (data st)) = fst p1 \<and> End (heap st' (data st)) = fst p2
          \<and> (snd p1 \<noteq> None \<longrightarrow> Start (heap st' (data st)) = Now exact (clock st))
          \<and> (snd p2 \<noteq> None \<longrightarrow> End (heap st' (data st)) = Now exact k)
          \<and> stdout st' = stdout st @ (case snd p1 of None \<Rightarrow> [] | Some e \<Rightarrow> [(1, e)])
                                   @ (case snd p2 of None \<Rightarrow> [] | Some e \<Rightarrow> [(1, e)])"
    and fr: "metrology st' = metrology st" "data st' = data st"
    by blast
  have k: "clock st = 0"
    using a(1) unfolding r1 by (auto simp: id_line_def upd_data_def init_state_def)
  have now: "Now exact 0 = Date 2026 11 1 8 0 0 0" by (simp add: exact_def)
  from b have d: "Start (heap st' (data st)) = Date 2026 11 1 8 0 0 0"
    "End (heap st' (data st)) = Date 0 1 1 0 0 44 0"
    "stdout st' = stdout st @ [(1, RegexpDidntMatch ''1:02'')]"
    by (simp_all add: Let_def ex_bad_time_lines ex_bad_time_captures ex_bad_time_tokens k now)
  show ?thesis using c a k d fr by blast
qed








text \<open>
  C7, as amended. The time parser turns every comma and full stop into a colon and, when
  the text then holds exactly two colons, appends \<^verbatim>\<open>:000\<close>. It fails with the error
  "Regexp didnt match" exactly when the text so normalized holds no four groups of digits
  with colons between them. When it holds them, the parser fails all the same, with a
  range error, exactly when one of the four groups of the leftmost match is beyond the
  64-bit integers; otherwise it succeeds. Every failure returns the reading of the clock.
  A token of three groups of digits within the integer range parses successfully, with 0
  milliseconds.
\<close>

theorem time_token_fails_iff:
  "(snd (parseSrtTime E k inp) = Some (RegexpDidntMatch (normalize inp))
      \<longleftrightarrow> \<not> has_time_form (normalize inp))
   \<and> (snd (parseSrtTime E k inp) = Some ErrRange
      \<longleftrightarrow> has_time_form (normalize inp)
        \<and> (\<exists>g \<in> set (tl (FindStringSubmatch time_re (normalize inp))).
              int (nat_of_digits g) > maxInt64))
   \<and> (snd (parseSrtTime E k inp) = None
      \<longleftrightarrow> has_time_form (normalize inp)
        \<and> (\<forall>g \<in> set (tl (FindStringSubmatch time_re (normalize inp))).
              int (nat_of_digits g) \<le> maxInt64))
   \<and> (snd (parseSrtTime E k inp) \<noteq> None \<longrightarrow> fst (parseSrtTime E k inp) = Now E k)
   \<and> normalize inp =
       (let s = map (\<lambda>c. if c = CHR '','' \<or> c = CHR ''.'' then CHR '':'' else c) inp
        in if length (filter (\<lambda>c. c = CHR '':'') s) = 2 then s @ '':000'' else s)
   \<and> (h \<noteq> [] \<and> m \<noteq> [] \<and> sec \<noteq> [] \<and> set (h @ m @ sec) \<subseteq> set digits
        \<and> int (nat_of_digits h) \<le> maxInt64 \<and> int (nat_of_digits m) \<le> maxInt64
        \<and> int (nat_of_digits sec) \<le> maxInt64
      \<longrightarrow> parseSrtTime E k (h @ '':'' @ m @ '':'' @ sec)
          = (makeTime (int (nat_of_digits h)) (int (nat_of_digits m))
               (int (nat_of_digits sec)) 0, None))"
proof -
  let ?ms = "FindStringSubmatch time_re (normalize inp)"
  have main: "(snd (parseSrtTime E k inp) = Some (RegexpDidntMatch (normalize inp))
      \<longleftrightarrow> \<not> has_time_form (normalize inp))
   \<and> (snd (parseSrtTime E k inp) = Some ErrRange
      \<longleftrightarrow> has_time_form (normalize inp)
        \<and> (\<exists>g \<in> set (tl ?ms). int (nat_of_digits g) > maxInt64))
   \<and> (snd (parseSrtTime E k inp) = None
      \<longleftrightarrow> has_time_form (normalize inp)
        \<and> (\<forall>g \<in> set (tl ?ms). int (nat_of_digits g) \<le> maxInt64))"
  proof (cases "?ms = []")
    case True
    then have "\<not> has_time_form (normalize inp)" using time_re_matches_iff by blast
    moreover have "parseSrtTime E k inp = (Now E k, Some (RegexpDidntMatch (normalize inp)))"
      using True by (simp add: parseSrtTime_def)
    ultimately show ?thesis by simp
  next
    case False
    then have f: "has_time_form (normalize inp)" using time_re_matches_iff by blast
    from time_re_find[OF False] obtain w a b c d where
      g: "?ms = [w, a, b, c, d]" "a \<noteq> []" "b \<noteq> []" "c \<noteq> []" "d \<noteq> []"
         "set (a @ b @ c @ d) \<subseteq> set digits" by blast
    show ?thesis
      unfolding parseSrtTime_matched[OF g] using f g(1) by auto
  qed
  have three: "parseSrtTime E k (h @ '':'' @ m @ '':'' @ sec)
          = (makeTime (int (nat_of_digits h)) (int (nat_of_digits m))
               (int (nat_of_digits sec)) 0, None)"
    if a: "h \<noteq> []" "m \<noteq> []" "sec \<noteq> []" "set (h @ m @ sec) \<subseteq> set digits"
      "int (nat_of_digits h) \<le> maxInt64" "int (nat_of_digits m) \<le> maxInt64"
      "int (nat_of_digits sec) \<le> maxInt64"
  proof -
    have z: "''000'' \<noteq> []" "set (h @ m @ sec @ ''000'') \<subseteq> set digits"
      using a(4) by (simp_all add: digits_def)
    have n: "normalize (h @ '':'' @ m @ '':'' @ sec) = h @ '':'' @ m @ '':'' @ sec @ '':'' @ ''000''"
      using normalize_three_groups[OF a(4)] by simp
    have "FindStringSubmatch time_re (normalize (h @ '':'' @ m @ '':'' @ sec))
      = [h @ '':'' @ m @ '':'' @ sec @ '':'' @ ''000'', h, m, sec, ''000'']"
      unfolding n by (rule time_re_four_groups[OF a(1-3) z])
    from parseSrtTime_matched[OF this a(1-3) z, of E k] a(5-7)
    show ?thesis by (simp add: nat_of_digits_def digit_val_def maxInt64_def)
  qed
  show ?thesis
    using main three parseSrtTime_error[of E k inp] normalize_alt[of inp] by blast
qed

theorem out_of_range_group_fails_although_matched:
  "has_time_form (normalize ''99999999999999999999:00:00,000'')
   \<and> parseSrtTime exact 0 ''99999999999999999999:00:00,000'' = (Now exact 0, Some ErrRange)"
proof -
  have "FindStringSubmatch time_re (normalize ''99999999999999999999:00:00,000'') \<noteq> []"
    unfolding ex_big_hour by simp
  then show ?thesis using time_re_matches_iff ex_big_hour(2) by blast
qed

theorem time_token_fails_iff_witness:
  "snd (parseSrtTime exact 0 ''1:02'') = Some (RegexpDidntMatch (normalize ''1:02''))
   \<and> \<not> has_time_form (normalize ''1:02'')
   \<and> fst (parseSrtTime exact 0 ''1:02'') = Now exact 0
   \<and> snd (parseSrtTime exact 0 ''00:00:43,000'') = None
   \<and> has_time_form (normalize ''00:00:43,000'')
   \<and> ''1'' \<noteq> [] \<and> ''02'' \<noteq> [] \<and> ''03'' \<noteq> [] \<and> set (''1'' @ ''02'' @ ''03'') \<subseteq> set digits
   \<and> int (nat_of_digits ''1'') \<le> maxInt64 \<and> int (nat_of_digits ''02'') \<le> maxInt64
   \<and> int (nat_of_digits ''03'') \<le> maxInt64
   \<and> normalize ''1:02:03'' = ''1:02:03:000''
   \<and> parseSrtTime exact 0 (''1'' @ '':'' @ ''02'' @ '':'' @ ''03'') = (Date 0 1 1 1 2 3 0, None)"
proof -
  have a: "snd (parseSrtTime exact 0 ''1:02'') = Some (RegexpDidntMatch (normalize ''1:02''))"
    by (simp add: ex_bad_time_tokens ex_three_groups)
  have b: "snd (parseSrtTime exact 0 ''00:00:43,000'') = None"
    by (simp add: ex_block_times)
  have c: "''1'' \<noteq> []" "''02'' \<noteq> []" "''03'' \<noteq> []" "set (''1'' @ ''02'' @ ''03'') \<subseteq> set digits"
    "int (nat_of_digits ''1'') \<le> maxInt64" "int (nat_of_digits ''02'') \<le> maxInt64"
    "int (nat_of_digits ''03'') \<le> maxInt64"
    by (simp_all add: ex_three_groups maxInt64_def) (simp add: digits_def)
  note t1 = time_token_fails_iff[of exact 0 "''1:02''" "''1''" "''02''" "''03''"]
  note t2 = time_token_fails_iff[of exact 0 "''00:00:43,000''" "''1''" "''02''" "''03''"]
  have n: "\<not> has_time_form (normalize ''1:02'')" using t1 a by blast
  have e: "fst (parseSrtTime exact 0 ''1:02'') = Now exact 0" using t1 a by simp
  have h: "has_time_form (normalize ''00:00:43,000'')" using t2 b by blast
  have p: "parseSrtTime exact 0 (''1'' @ '':'' @ ''02'' @ '':'' @ ''03'') = (Date 0 1 1 1 2 3 0, None)"
    using t1 c by (simp add: ex_three_groups makeTime_def wrap64_def)
  show ?thesis
    by (intro conjI a n e b h c ex_three_groups(1) p)
qed

end
